theory Spec2Isabelle
  imports Complex_Main
begin

section \<open>Python strings and integers\<close>

text \<open>
  A Python \<open>str\<close> is modelled as a \<open>string\<close> whose characters are the code points
  0 to 255.  The three builtins the library relies on are written out for that range:
  \<open>str.lower\<close>, \<open>str.strip\<close> and \<open>int(str)\<close>.  Every exception of the library is a
  value of \<open>error\<close>; the payload records which \<open>raise\<close> statement produced it.
\<close>

datatype reason =
    Empty_expression
  | Empty_token
  | Invalid_modifier
  | Invalid_literal
  | Negative_count
  | Nonpositive_size
  | Bad_sign
  | Nothing_parsed
  | Bad_advantage_state
  | Score_out_of_range
  | Level_out_of_range
  | Unknown_ability
  | Unknown_skill
  | Empty_name
  | Division_too_large
  | Int_too_large
  | Division_by_zero

datatype error =
    ValueError reason
  | KeyError reason
  | OverflowError reason
  | ZeroDivisionError reason

definition code_point :: "char \<Rightarrow> nat" where
  "code_point c = of_char c"

text \<open>\<open>str.lower\<close> on one character: A to Z, and the upper-case letters of Latin-1.\<close>

definition lower_char :: "char \<Rightarrow> char" where
  "lower_char c =
     (let n = code_point c in
      if (65 \<le> n \<and> n \<le> 90) \<or> (192 \<le> n \<and> n \<le> 222 \<and> n \<noteq> 215)
      then char_of (n + 32) else c)"

definition lower :: "string \<Rightarrow> string" where
  "lower s = map lower_char s"

text \<open>The characters \<open>str.strip\<close> removes (those for which \<open>str.isspace\<close> holds).\<close>

definition is_space :: "char \<Rightarrow> bool" where
  "is_space c =
     (let n = code_point c in
      (9 \<le> n \<and> n \<le> 13) \<or> (28 \<le> n \<and> n \<le> 32) \<or> n = 133 \<or> n = 160)"

definition strip :: "string \<Rightarrow> string" where
  "strip s = rev (dropWhile is_space (rev (dropWhile is_space s)))"

text \<open>
  \<open>int(s)\<close> in base 10: blanks around the literal are skipped (the separators
  28 to 31 are not blanks for \<open>int\<close>), one sign is allowed, and the digits may be
  grouped by single underscores.  \<open>None\<close> stands for the \<open>ValueError\<close> it raises.
\<close>

definition int_space :: "char \<Rightarrow> bool" where
  "int_space c =
     (let n = code_point c in (9 \<le> n \<and> n \<le> 13) \<or> n = 32 \<or> n = 133 \<or> n = 160)"

definition is_digit :: "char \<Rightarrow> bool" where
  "is_digit c = (let n = code_point c in 48 \<le> n \<and> n \<le> 57)"

definition digit_val :: "char \<Rightarrow> int" where
  "digit_val c = int (code_point c) - 48"

fun int_digits :: "int \<Rightarrow> string \<Rightarrow> int option" where
  "int_digits acc [] = Some acc"
| "int_digits acc (c # cs) =
     (if is_digit c then int_digits (10 * acc + digit_val c) cs
      else if c = CHR ''_'' then
        (case cs of
           [] \<Rightarrow> None
         | d # _ \<Rightarrow> if is_digit d then int_digits acc cs else None)
      else None)"

definition int_unsigned :: "string \<Rightarrow> int option" where
  "int_unsigned s =
     (case s of
        [] \<Rightarrow> None
      | c # _ \<Rightarrow> if is_digit c then int_digits 0 s else None)"

definition py_int :: "string \<Rightarrow> int option" where
  "py_int s =
     (let t = rev (dropWhile int_space (rev (dropWhile int_space s))) in
      case t of
        [] \<Rightarrow> None
      | c # cs \<Rightarrow>
          if c = CHR ''+'' then int_unsigned cs
          else if c = CHR ''-'' then map_option uminus (int_unsigned cs)
          else int_unsigned t)"

section \<open>Dice expressions (dice.py)\<close>

record DiceTerm =
  count :: int
  size_d :: int
  sign :: int

record ModifierTerm =
  value_m :: int

record DiceExpression =
  dice :: "DiceTerm list"
  modifiers :: "ModifierTerm list"

text \<open>The constructor of \<open>DiceTerm\<close> with the checks of its \<open>__post_init__\<close>.\<close>

definition mk_DiceTerm :: "int \<Rightarrow> int \<Rightarrow> int \<Rightarrow> error + DiceTerm" where
  "mk_DiceTerm c z g =
     (if c < 0 then Inl (ValueError Negative_count)
      else if z \<le> 0 then Inl (ValueError Nonpositive_size)
      else if g \<noteq> 1 \<and> g \<noteq> - 1 then Inl (ValueError Bad_sign)
      else Inr \<lparr>count = c, size_d = z, sign = g\<rparr>)"

definition modifier_total :: "DiceExpression \<Rightarrow> int" where
  "modifier_total e = sum_list (map value_m (modifiers e))"

text \<open>
  \<open>_TOKEN_RE.findall\<close> for the pattern \<open>[+-]?[^+-]+\<close>: scanning from the left, a
  match is an optional sign followed by the longest non-empty run of characters
  that are not signs.  A sign that is not followed by such a run matches nothing
  and is skipped.
\<close>

definition is_sign :: "char \<Rightarrow> bool" where
  "is_sign c = (c = CHR ''+'' \<or> c = CHR ''-'')"

function findall :: "string \<Rightarrow> string list" where
  "findall [] = []"
| "findall (c # cs) =
     (if is_sign c then
        (case takeWhile (\<lambda>x. \<not> is_sign x) cs of
           [] \<Rightarrow> findall cs
         | r # rs \<Rightarrow> (c # r # rs) # findall (dropWhile (\<lambda>x. \<not> is_sign x) cs))
      else (c # takeWhile (\<lambda>x. \<not> is_sign x) cs) # findall (dropWhile (\<lambda>x. \<not> is_sign x) cs))"
  by pat_completeness auto
termination
  by (relation "measure length") (auto simp: less_Suc_eq_le length_dropWhile_le)

text \<open>\<open>_parse_token\<close>: the pair of optional results is kept as the source returns it.\<close>

definition parse_token :: "string \<Rightarrow> error + (DiceTerm option \<times> ModifierTerm option)" where
  "parse_token token0 =
     (let token1 = strip token0 in
      case token1 of
        [] \<Rightarrow> Inl (ValueError Empty_token)
      | c # cs \<Rightarrow>
          let sg = (if c = CHR ''+'' then 1 else if c = CHR ''-'' then - 1 else 1);
              token = (if c = CHR ''+'' \<or> c = CHR ''-'' then cs else token1)
          in
          if CHR ''d'' \<in> set (lower token) then
            (let count_part = takeWhile (\<lambda>x. x \<noteq> CHR ''d'') (lower token);
                 size_part = tl (dropWhile (\<lambda>x. x \<noteq> CHR ''d'') (lower token))
             in
             case (if count_part \<noteq> [] then py_int count_part else Some 1) of
               None \<Rightarrow> Inl (ValueError Invalid_literal)
             | Some cnt \<Rightarrow>
                 (case py_int size_part of
                    None \<Rightarrow> Inl (ValueError Invalid_literal)
                  | Some sz \<Rightarrow>
                      (case mk_DiceTerm cnt sz sg of
                         Inl e \<Rightarrow> Inl e
                       | Inr t \<Rightarrow> Inr (Some t, None))))
          else if token = [] then Inl (ValueError Invalid_modifier)
          else
            (case py_int token of
               None \<Rightarrow> Inl (ValueError Invalid_literal)
             | Some v \<Rightarrow> Inr (None, Some \<lparr>value_m = v * sg\<rparr>)))"

text \<open>The loop of \<open>parse_expression\<close> over the tokens, with its two accumulators.\<close>

fun parse_tokens ::
  "string list \<Rightarrow> DiceTerm list \<Rightarrow> ModifierTerm list \<Rightarrow> error + (DiceTerm list \<times> ModifierTerm list)"
where
  "parse_tokens [] dice_terms mods = Inr (dice_terms, mods)"
| "parse_tokens (token # rest) dice_terms mods =
     (case parse_token token of
        Inl e \<Rightarrow> Inl e
      | Inr (Some d, _) \<Rightarrow> parse_tokens rest (dice_terms @ [d]) mods
      | Inr (None, Some m) \<Rightarrow> parse_tokens rest dice_terms (mods @ [m])
      | Inr (None, None) \<Rightarrow> parse_tokens rest dice_terms mods)"

definition parse_expression :: "string \<Rightarrow> error + DiceExpression" where
  "parse_expression expr0 =
     (let expr = filter (\<lambda>c. c \<noteq> CHR '' '') expr0 in
      if expr = [] then Inl (ValueError Empty_expression)
      else
        (case parse_tokens (findall expr) [] [] of
           Inl e \<Rightarrow> Inl e
         | Inr (dice_terms, mods) \<Rightarrow>
             if dice_terms = [] \<and> mods = [] then Inl (ValueError Nothing_parsed)
             else Inr \<lparr>dice = dice_terms, modifiers = mods\<rparr>))"

subsection \<open>The random source\<close>

text \<open>
  A random source is an object with a method \<open>randint(lo, hi)\<close> that returns a
  number and advances the object's state.  The model passes the state explicitly:
  \<open>rnd s lo hi\<close> is the number drawn in state \<open>s\<close> together with the next state.
  Each function below takes the state of the source it was given (a call without
  \<open>rng\<close> is a call on a freshly created source, \<open>rng or random.Random()\<close>) and
  returns the state it leaves behind, also when it raises.
\<close>

type_synonym 's randint = "'s \<Rightarrow> int \<Rightarrow> int \<Rightarrow> int \<times> 's"

definition randint_ok :: "'s randint \<Rightarrow> bool" where
  "randint_ok rnd = (\<forall>s lo hi. lo \<le> hi \<longrightarrow> lo \<le> fst (rnd s lo hi) \<and> fst (rnd s lo hi) \<le> hi)"

text \<open>A deterministic source for the examples: a counter reduced into the range.\<close>

definition counter_rng :: "nat randint" where
  "counter_rng s lo hi = (lo + int s mod (hi - lo + 1), 3 * s + 1)"

subsection \<open>Rolling\<close>

record DiceRollResult =
  total_r :: int
  dice_results :: "int list list"
  modifiers_r :: "int list"

text \<open>\<open>tuple(rng.randint(1, size) for _ in range(count))\<close>\<close>

fun draws :: "'s randint \<Rightarrow> nat \<Rightarrow> int \<Rightarrow> 's \<Rightarrow> int list \<times> 's" where
  "draws rnd 0 z s = ([], s)"
| "draws rnd (Suc n) z s =
     (case rnd s 1 z of (v, s1) \<Rightarrow>
        (case draws rnd n z s1 of (vs, s2) \<Rightarrow> (v # vs, s2)))"

text \<open>The loop of \<open>roll\<close> over the dice terms: the result list, the total, the source.\<close>

fun roll_terms ::
  "'s randint \<Rightarrow> DiceTerm list \<Rightarrow> int list list \<Rightarrow> int \<Rightarrow> 's \<Rightarrow> int list list \<times> int \<times> 's"
where
  "roll_terms rnd [] results tot s = (results, tot, s)"
| "roll_terms rnd (t # rest) results tot s =
     (if count t = 0 then roll_terms rnd rest (results @ [[]]) tot s
      else
        (case draws rnd (nat (count t)) (size_d t) s of (rolls, s1) \<Rightarrow>
           (let subtotal = sum_list rolls * sign t in
            roll_terms rnd rest
              (results @ [if sign t > 0 then rolls else map uminus rolls])
              (tot + subtotal) s1)))"

definition roll :: "'s randint \<Rightarrow> string \<Rightarrow> 's \<Rightarrow> (error + DiceRollResult) \<times> 's" where
  "roll rnd expr rng =
     (case parse_expression expr of
        Inl e \<Rightarrow> (Inl e, rng)
      | Inr parsed \<Rightarrow>
          (case roll_terms rnd (dice parsed) [] (modifier_total parsed) rng of
             (results, tot, rng') \<Rightarrow>
               (Inr \<lparr>total_r = tot, dice_results = results,
                     modifiers_r = map value_m (modifiers parsed)\<rparr>, rng')))"

subsection \<open>Floats\<close>

text \<open>
  A Python float is an IEEE 754 binary64 number.  Its finite values are kept as
  the rational numbers they denote (the two zeros are not told apart), next to
  the two infinities and NaN.  \<open>round_binary64\<close> is rounding to nearest, ties to
  even, with 53 significant bits and the smallest exponent -1074; \<open>None\<close> means
  that the rounded magnitude reaches 2 ^ 1024, the overflow.  \<open>bit_length\<close> is
  \<open>int.bit_length\<close>, and \<open>exponent x\<close> is the integer \<open>e\<close> with
  \<open>2 ^ e \<le> |x| < 2 ^ (e + 1)\<close> for \<open>x\<close> other than 0.
\<close>

datatype float64 = Finite rat | PosInf | NegInf | NaN

function bit_length :: "int \<Rightarrow> int" where
  "bit_length n = (if n \<le> 0 then 0 else 1 + bit_length (n div 2))"
  by pat_completeness auto
termination
  by (relation "measure nat") auto

declare bit_length.simps [simp del]

definition exponent :: "rat \<Rightarrow> int" where
  "exponent x =
     (if 1 \<le> \<bar>x\<bar> then bit_length \<lfloor>\<bar>x\<bar>\<rfloor> - 1
      else - bit_length (\<lceil>1 / \<bar>x\<bar>\<rceil> - 1))"

definition pow2 :: "int \<Rightarrow> rat" where
  "pow2 q = (if 0 \<le> q then 2 ^ nat q else 1 / 2 ^ nat (- q))"

definition round_half_even :: "rat \<Rightarrow> int" where
  "round_half_even x =
     (let f = \<lfloor>x\<rfloor>; d = x - of_int f in
      if d < 1 / 2 then f else if 1 / 2 < d then f + 1
      else if even f then f else f + 1)"

definition round_binary64 :: "rat \<Rightarrow> rat option" where
  "round_binary64 x =
     (if x = 0 then Some 0
      else
        (let q = max (exponent x - 52) (- 1074);
             y = of_int (round_half_even (x / pow2 q)) * pow2 q
         in if 2 ^ 1024 \<le> \<bar>y\<bar> then None else Some y))"

text \<open>
  The three operations of \<open>expected_value\<close> on numbers.  \<open>a / b\<close> on two ints is
  the correctly rounded quotient and raises OverflowError when it is too large
  for a float.  \<open>int + float\<close> converts the int first, which raises OverflowError
  for an int too large for a float.  \<open>float + float\<close> is the IEEE sum, which
  overflows to an infinity without raising.
\<close>

definition int_truediv :: "int \<Rightarrow> int \<Rightarrow> error + float64" where
  "int_truediv a b =
     (if b = 0 then Inl (ZeroDivisionError Division_by_zero)
      else
        (case round_binary64 (of_int a / of_int b) of
           None \<Rightarrow> Inl (OverflowError Division_too_large)
         | Some y \<Rightarrow> Inr (Finite y)))"

definition int_to_float :: "int \<Rightarrow> error + float64" where
  "int_to_float k =
     (case round_binary64 (of_int k) of
        None \<Rightarrow> Inl (OverflowError Int_too_large)
      | Some y \<Rightarrow> Inr (Finite y))"

fun float_add :: "float64 \<Rightarrow> float64 \<Rightarrow> float64" where
  "float_add (Finite a) (Finite b) =
     (case round_binary64 (a + b) of
        Some y \<Rightarrow> Finite y
      | None \<Rightarrow> if 0 < a + b then PosInf else NegInf)"
| "float_add NaN _ = NaN"
| "float_add _ NaN = NaN"
| "float_add PosInf NegInf = NaN"
| "float_add NegInf PosInf = NaN"
| "float_add PosInf _ = PosInf"
| "float_add _ PosInf = PosInf"
| "float_add NegInf _ = NegInf"
| "float_add _ NegInf = NegInf"

text \<open>
  The variable \<open>expected\<close> holds an int (the modifier total) until the first
  dice term is added and a float from then on.
\<close>

datatype py_number = PyInt int | PyFloat float64

definition add_float :: "py_number \<Rightarrow> float64 \<Rightarrow> error + py_number" where
  "add_float expected f =
     (case expected of
        PyInt k \<Rightarrow>
          (case int_to_float k of
             Inl e \<Rightarrow> Inl e
           | Inr x \<Rightarrow> Inr (PyFloat (float_add x f)))
      | PyFloat x \<Rightarrow> Inr (PyFloat (float_add x f)))"

subsection \<open>The expected value\<close>

text \<open>
  \<open>expected_value\<close>: for each dice term the int \<open>sign * count * (size + 1)\<close> is
  divided by 2 and the quotient is added to \<open>expected\<close>.
\<close>

fun expected_terms :: "DiceTerm list \<Rightarrow> py_number \<Rightarrow> error + py_number" where
  "expected_terms [] expected = Inr expected"
| "expected_terms (t # rest) expected =
     (case int_truediv (sign t * count t * (size_d t + 1)) 2 of
        Inl e \<Rightarrow> Inl e
      | Inr f \<Rightarrow>
          (case add_float expected f of
             Inl e \<Rightarrow> Inl e
           | Inr x \<Rightarrow> expected_terms rest x))"

definition expected_value :: "string \<Rightarrow> error + py_number" where
  "expected_value expr =
     (case parse_expression expr of
        Inl e \<Rightarrow> Inl e
      | Inr parsed \<Rightarrow> expected_terms (dice parsed) (PyInt (modifier_total parsed)))"

subsection \<open>The d20 roller\<close>

definition roll_d20 :: "'s randint \<Rightarrow> 's \<Rightarrow> int \<times> 's" where
  "roll_d20 rnd rng = rnd rng 1 20"

definition roll_with_advantage :: "'s randint \<Rightarrow> 's \<Rightarrow> (int \<times> int \<times> int) \<times> 's" where
  "roll_with_advantage rnd rng =
     (case rnd rng 1 20 of (first, s1) \<Rightarrow>
        (case rnd s1 1 20 of (second, s2) \<Rightarrow>
           ((max first second, (first, second)), s2)))"

definition roll_with_disadvantage :: "'s randint \<Rightarrow> 's \<Rightarrow> (int \<times> int \<times> int) \<times> 's" where
  "roll_with_disadvantage rnd rng =
     (case rnd rng 1 20 of (first, s1) \<Rightarrow>
        (case rnd s1 1 20 of (second, s2) \<Rightarrow>
           ((min first second, (first, second)), s2)))"

section \<open>Checks and contests (rules.py)\<close>

record CheckResult =
  total_c :: int
  modifier_c :: int
  dc :: int
  success :: bool
  natural :: int
  roll_details :: "int list"

record ContestResult =
  total_a :: int
  total_b :: int
  winner :: "string option"
  check_a :: CheckResult
  check_b :: CheckResult

definition is_tie :: "ContestResult \<Rightarrow> bool" where
  "is_tie r = (winner r = None)"

text \<open>\<open>_roll_d20\<close> of rules.py, which dispatches on the advantage state.\<close>

definition rules_roll_d20 ::
  "'s randint \<Rightarrow> string \<Rightarrow> 's \<Rightarrow> (error + int \<times> int list) \<times> 's" where
  "rules_roll_d20 rnd state0 rng =
     (let state = lower state0 in
      if state = ''normal'' then
        (case roll_d20 rnd rng of (v, s1) \<Rightarrow> (Inr (v, [v]), s1))
      else if state = ''advantage'' then
        (case roll_with_advantage rnd rng of ((v, (a, b)), s1) \<Rightarrow> (Inr (v, [a, b]), s1))
      else if state = ''disadvantage'' then
        (case roll_with_disadvantage rnd rng of ((v, (a, b)), s1) \<Rightarrow> (Inr (v, [a, b]), s1))
      else (Inl (ValueError Bad_advantage_state), rng))"

definition resolve_check ::
  "'s randint \<Rightarrow> int \<Rightarrow> int \<Rightarrow> string \<Rightarrow> 's \<Rightarrow> (error + CheckResult) \<times> 's" where
  "resolve_check rnd m d advantage rng =
     (case rules_roll_d20 rnd advantage rng of
        (Inl e, s1) \<Rightarrow> (Inl e, s1)
      | (Inr (nat_roll, detail), s1) \<Rightarrow>
          (let tot = nat_roll + m in
           (Inr \<lparr>total_c = tot, modifier_c = m, dc = d, success = (tot \<ge> d),
                 natural = nat_roll, roll_details = detail\<rparr>, s1)))"

definition resolve_contest ::
  "'s randint \<Rightarrow> int \<Rightarrow> int \<Rightarrow> string \<Rightarrow> string \<Rightarrow> 's \<Rightarrow> (error + ContestResult) \<times> 's" where
  "resolve_contest rnd modifier_a modifier_b advantage_a advantage_b rng =
     (case resolve_check rnd modifier_a 0 advantage_a rng of
        (Inl e, s1) \<Rightarrow> (Inl e, s1)
      | (Inr ca, s1) \<Rightarrow>
          (case resolve_check rnd modifier_b 0 advantage_b s1 of
             (Inl e, s2) \<Rightarrow> (Inl e, s2)
           | (Inr cb, s2) \<Rightarrow>
               (let ta = total_c ca; tb = total_c cb;
                    w = (if ta > tb then Some ''a'' else if tb > ta then Some ''b'' else None)
                in (Inr \<lparr>total_a = ta, total_b = tb, winner = w,
                          check_a = ca, check_b = cb\<rparr>, s2))))"

section \<open>Ability scores and characters (abilities.py, character.py)\<close>

definition ABILITY_NAMES :: "string list" where
  "ABILITY_NAMES =
     [''strength'', ''dexterity'', ''constitution'', ''intelligence'', ''wisdom'', ''charisma'']"

definition validate_score :: "int \<Rightarrow> error + int" where
  "validate_score score =
     (if \<not> (1 \<le> score \<and> score \<le> 30) then Inl (ValueError Score_out_of_range) else Inr score)"

definition modifier :: "int \<Rightarrow> error + int" where
  "modifier score =
     (case validate_score score of Inl e \<Rightarrow> Inl e | Inr v \<Rightarrow> Inr ((v - 10) div 2))"

record AbilityScores =
  strength :: int
  dexterity :: int
  constitution :: int
  intelligence :: int
  wisdom :: int
  charisma :: int

text \<open>\<open>getattr(self, key)\<close> for the six field names.\<close>

definition getattr :: "AbilityScores \<Rightarrow> string \<Rightarrow> int option" where
  "getattr a key =
     map_of [(''strength'', strength a), (''dexterity'', dexterity a),
             (''constitution'', constitution a), (''intelligence'', intelligence a),
             (''wisdom'', wisdom a), (''charisma'', charisma a)] key"

definition AbilityScores_modifier :: "AbilityScores \<Rightarrow> string \<Rightarrow> error + int" where
  "AbilityScores_modifier a ability =
     (let key = lower ability in
      if key \<notin> set ABILITY_NAMES then Inl (KeyError Unknown_ability)
      else
        (case getattr a key of
           None \<Rightarrow> Inl (KeyError Unknown_ability)
         | Some score \<Rightarrow> modifier score))"

definition SKILL_ABILITIES :: "string \<Rightarrow> string option" where
  "SKILL_ABILITIES =
     map_of [(''acrobatics'', ''dexterity''), (''animal handling'', ''wisdom''),
             (''arcana'', ''intelligence''), (''athletics'', ''strength''),
             (''deception'', ''charisma''), (''history'', ''intelligence''),
             (''insight'', ''wisdom''), (''intimidation'', ''charisma''),
             (''investigation'', ''intelligence''), (''medicine'', ''wisdom''),
             (''nature'', ''intelligence''), (''perception'', ''wisdom''),
             (''performance'', ''charisma''), (''persuasion'', ''charisma''),
             (''religion'', ''intelligence''), (''sleight of hand'', ''dexterity''),
             (''stealth'', ''dexterity''), (''survival'', ''wisdom'')]"

definition proficiency_bonus :: "int \<Rightarrow> error + int" where
  "proficiency_bonus lv =
     (if lv < 1 \<or> lv > 20 then Inl (ValueError Level_out_of_range)
      else Inr (2 + (lv - 1) div 4))"

record Character =
  name :: string
  level :: int
  abilities :: AbilityScores
  proficient_skills :: "string set"
  expertise_skills :: "string set"
  proficient_saves :: "string set"

text \<open>The constructor of \<open>Character\<close> with its \<open>__post_init__\<close>.\<close>

definition mk_Character ::
  "string \<Rightarrow> int \<Rightarrow> AbilityScores \<Rightarrow> string set \<Rightarrow> string set \<Rightarrow> string set \<Rightarrow> error + Character"
where
  "mk_Character nm lv sc ps es sv =
     (if nm = [] then Inl (ValueError Empty_name)
      else
        (case proficiency_bonus lv of
           Inl e \<Rightarrow> Inl e
         | Inr _ \<Rightarrow>
             Inr \<lparr>name = nm, level = lv, abilities = sc,
                  proficient_skills = lower ` ps,
                  expertise_skills = lower ` es,
                  proficient_saves = lower ` sv\<rparr>))"

definition ability_modifier :: "Character \<Rightarrow> string \<Rightarrow> error + int" where
  "ability_modifier c ability = AbilityScores_modifier (abilities c) ability"

definition skill_modifier :: "Character \<Rightarrow> string \<Rightarrow> error + int" where
  "skill_modifier c skill =
     (let key = lower skill in
      case SKILL_ABILITIES key of
        None \<Rightarrow> Inl (KeyError Unknown_skill)
      | Some ability \<Rightarrow>
          (case ability_modifier c ability of
             Inl e \<Rightarrow> Inl e
           | Inr m \<Rightarrow>
               if key \<in> expertise_skills c then
                 (case proficiency_bonus (level c) of
                    Inl e \<Rightarrow> Inl e
                  | Inr pb \<Rightarrow> Inr (m + 2 * pb))
               else if key \<in> proficient_skills c then
                 (case proficiency_bonus (level c) of
                    Inl e \<Rightarrow> Inl e
                  | Inr pb \<Rightarrow> Inr (m + pb))
               else Inr m))"

section \<open>Notions of the specification\<close>

text \<open>The three advantage states, compared after lower-casing.\<close>

definition valid_state :: "string \<Rightarrow> bool" where
  "valid_state st = (lower st \<in> {''normal'', ''advantage'', ''disadvantage''})"

text \<open>The invariant of a dice term.\<close>

definition valid_term :: "DiceTerm \<Rightarrow> bool" where
  "valid_term t = (0 \<le> count t \<and> 1 \<le> size_d t \<and> (sign t = 1 \<or> sign t = - 1))"

text \<open>
  The raw values of a roll, as the specification describes them: for each dice
  term in parse order, \<open>count\<close> draws with the bounds 1 and \<open>size\<close>, each term
  continuing with the source where the previous one left it; \<open>rng_after\<close> is the
  state of the source after the last term.
\<close>

fun raw_rolls :: "'s randint \<Rightarrow> DiceTerm list \<Rightarrow> 's \<Rightarrow> int list list" where
  "raw_rolls rnd [] s = []"
| "raw_rolls rnd (t # ts) s =
     fst (draws rnd (nat (count t)) (size_d t) s)
       # raw_rolls rnd ts (snd (draws rnd (nat (count t)) (size_d t) s))"

fun rng_after :: "'s randint \<Rightarrow> DiceTerm list \<Rightarrow> 's \<Rightarrow> 's" where
  "rng_after rnd [] s = s"
| "rng_after rnd (t # ts) s = rng_after rnd ts (snd (draws rnd (nat (count t)) (size_d t) s))"

text \<open>The values recorded for a term: negated one by one when the sign is -1.\<close>

definition shown_rolls :: "DiceTerm \<Rightarrow> int list \<Rightarrow> int list" where
  "shown_rolls t raws = (if sign t = - 1 then map uminus raws else raws)"

text \<open>
  The number a result of \<open>expected_value\<close> denotes, and the closed form of the
  specification: the sum over the dice terms of \<open>sign * count * (size + 1) / 2\<close>
  plus the sum of the modifier values.
\<close>

fun number_value :: "py_number \<Rightarrow> rat option" where
  "number_value (PyInt k) = Some (of_int k)"
| "number_value (PyFloat (Finite x)) = Some x"
| "number_value (PyFloat _) = None"

definition closed_form :: "DiceExpression \<Rightarrow> rat" where
  "closed_form e =
     (\<Sum>t \<leftarrow> dice e. of_int (sign t) * of_int (count t) * (of_int (size_d t) + 1) / 2)
     + of_int (sum_list (map value_m (modifiers e)))"

text \<open>The character of the test suite, after the constructor has normalised its sets.\<close>

definition rogue :: Character where
  "rogue =
     \<lparr>name = ''Nyx'', level = 5,
      abilities = \<lparr>strength = 15, dexterity = 16, constitution = 14,
                   intelligence = 12, wisdom = 10, charisma = 8\<rparr>,
      proficient_skills = {''stealth'', ''acrobatics''},
      expertise_skills = {''stealth''},
      proficient_saves = {''dexterity''}\<rparr>"

section \<open>Properties of the parser\<close>

lemma mk_DiceTerm_valid: "mk_DiceTerm c z g = Inr t \<Longrightarrow> valid_term t"
  by (auto simp: mk_DiceTerm_def valid_term_def split: if_splits)

lemma parse_token_valid: "parse_token tok = Inr (Some t, m) \<Longrightarrow> valid_term t"
  by (auto simp: parse_token_def Let_def
           split: list.splits if_splits option.splits sum.splits dest: mk_DiceTerm_valid)

lemma parse_tokens_valid:
  "parse_tokens toks ds ms = Inr (ds', ms') \<Longrightarrow> list_all valid_term ds \<Longrightarrow> list_all valid_term ds'"
proof (induction toks arbitrary: ds ms)
  case Nil
  then show ?case by simp
next
  case (Cons tok toks)
  then show ?case
    by (auto split: sum.splits option.splits prod.splits dest: parse_token_valid)
qed

lemma parse_expression_valid:
  "parse_expression expr = Inr e \<Longrightarrow> list_all valid_term (dice e)"
  by (auto simp: parse_expression_def Let_def
           split: if_splits sum.splits prod.splits dest: parse_tokens_valid)

section \<open>Properties of the evaluator\<close>

lemma length_draws: "length (fst (draws rnd n z s)) = n"
  by (induction n arbitrary: s) (simp_all add: case_prod_beta)

lemma draws_range:
  "randint_ok rnd \<Longrightarrow> 1 \<le> z \<Longrightarrow> v \<in> set (fst (draws rnd n z s)) \<Longrightarrow> 1 \<le> v \<and> v \<le> z"
proof (induction n arbitrary: s)
  case 0
  then show ?case by simp
next
  case (Suc n)
  obtain x s1 where r: "rnd s 1 z = (x, s1)" by (cases "rnd s 1 z")
  have x: "1 \<le> x \<and> x \<le> z"
    using Suc.prems(1,2) r unfolding randint_ok_def by (metis fst_conv)
  obtain vs s2 where d: "draws rnd n z s1 = (vs, s2)" by (cases "draws rnd n z s1")
  from Suc.prems(3) r d have "v = x \<or> v \<in> set (fst (draws rnd n z s1))" by auto
  then show ?case using x Suc.IH[OF Suc.prems(1,2)] by blast
qed

lemma length_raw_rolls: "length (raw_rolls rnd ts s) = length ts"
  by (induction ts arbitrary: s) auto

lemma raw_rolls_nth_length:
  "i < length ts \<Longrightarrow> length (raw_rolls rnd ts s ! i) = nat (count (ts ! i))"
proof (induction ts arbitrary: s i)
  case Nil
  then show ?case by simp
next
  case (Cons t ts)
  then show ?case by (cases i) (simp_all add: length_draws)
qed

lemma raw_rolls_range:
  "randint_ok rnd \<Longrightarrow> list_all valid_term ts \<Longrightarrow> i < length ts \<Longrightarrow>
   v \<in> set (raw_rolls rnd ts s ! i) \<Longrightarrow> 1 \<le> v \<and> v \<le> size_d (ts ! i)"
proof (induction ts arbitrary: s i)
  case Nil
  then show ?case by simp
next
  case (Cons t ts)
  show ?case
  proof (cases i)
    case 0
    with Cons.prems show ?thesis
      using draws_range[of rnd "size_d t" v "nat (count t)" s] by (simp add: valid_term_def)
  next
    case (Suc j)
    with Cons.prems Cons.IH[of j "snd (draws rnd (nat (count t)) (size_d t) s)"]
    show ?thesis by simp
  qed
qed

lemma roll_terms_closed:
  "list_all valid_term ts \<Longrightarrow>
   roll_terms rnd ts results tot s =
     (results @ map2 shown_rolls ts (raw_rolls rnd ts s),
      tot + (\<Sum>(t, raws) \<leftarrow> zip ts (raw_rolls rnd ts s). sign t * sum_list raws),
      rng_after rnd ts s)"
proof (induction ts arbitrary: results tot s)
  case Nil
  then show ?case by simp
next
  case (Cons t ts)
  then have v: "valid_term t" and vs: "list_all valid_term ts" by simp_all
  show ?case
  proof (cases "count t = 0")
    case True
    then show ?thesis using Cons.IH[OF vs] by (simp add: shown_rolls_def)
  next
    case False
    obtain rolls s1 where d: "draws rnd (nat (count t)) (size_d t) s = (rolls, s1)"
      by (cases "draws rnd (nat (count t)) (size_d t) s")
    have sg: "(if 0 < sign t then rolls else map uminus rolls) = shown_rolls t rolls"
      using v by (auto simp: valid_term_def shown_rolls_def)
    show ?thesis using False d Cons.IH[OF vs]
      by (simp add: Let_def sg mult.commute)
  qed
qed

lemma roll_terms_append:
  "roll_terms rnd (xs @ ys) results tot s =
     (case roll_terms rnd xs results tot s of (r1, t1, s1) \<Rightarrow> roll_terms rnd ys r1 t1 s1)"
  by (induction xs arbitrary: results tot s) (auto simp: Let_def split: prod.splits)

lemma roll_terms_acc:
  "roll_terms rnd ts results tot s =
     (case roll_terms rnd ts [] 0 s of (r, t, s') \<Rightarrow> (results @ r, tot + t, s'))"
proof (induction ts arbitrary: results tot s)
  case Nil
  then show ?case by simp
next
  case (Cons t ts)
  show ?case
  proof (cases "count t = 0")
    case True
    show ?thesis
      using True Cons.IH[of "results @ [[]]" tot s] Cons.IH[of "[[]]" 0 s]
      by (simp split: prod.splits)
  next
    case False
    obtain rolls s1 where d: "draws rnd (nat (count t)) (size_d t) s = (rolls, s1)"
      by (cases "draws rnd (nat (count t)) (size_d t) s")
    show ?thesis
      using False d
        Cons.IH[of "results @ [if 0 < sign t then rolls else map uminus rolls]"
                   "tot + sum_list rolls * sign t" s1]
        Cons.IH[of "[if 0 < sign t then rolls else map uminus rolls]"
                   "sum_list rolls * sign t" s1]
      by (simp add: Let_def split: prod.splits)
  qed
qed

lemma length_roll_terms:
  "length (fst (roll_terms rnd ts results tot s)) = length results + length ts"
  by (induction ts arbitrary: results tot s) (auto simp: Let_def split: prod.splits)

subsection \<open>Rounding and the expected value\<close>

lemma bit_length_nonneg: "0 \<le> bit_length n"
proof (induction n rule: bit_length.induct)
  case (1 n)
  then show ?case by (subst bit_length.simps) simp
qed

lemma bit_length_lower: "0 < n \<Longrightarrow> 2 ^ nat (bit_length n - 1) \<le> n"
proof (induction n rule: bit_length.induct)
  case (1 n)
  show ?case
  proof (cases "n div 2 \<le> 0")
    case True
    with 1(2) have "n = 1" by presburger
    then show ?thesis by (simp add: bit_length.simps[of 1] bit_length.simps[of 0])
  next
    case False
    then have h: "0 < n div 2" by simp
    have ih: "2 ^ nat (bit_length (n div 2) - 1) \<le> n div 2"
      using 1(1)[OF _ h] 1(2) by simp
    have pos: "1 \<le> bit_length (n div 2)"
      using h bit_length_nonneg[of "n div 2 div 2"] by (subst bit_length.simps) simp
    have e: "bit_length n = 1 + bit_length (n div 2)"
      using 1(2) by (subst bit_length.simps) simp
    have "nat (bit_length n - 1) = Suc (nat (bit_length (n div 2) - 1))"
      using pos e by simp
    then have "(2::int) ^ nat (bit_length n - 1) = 2 * 2 ^ nat (bit_length (n div 2) - 1)"
      by simp
    also have "\<dots> \<le> 2 * (n div 2)" using ih by simp
    also have "\<dots> \<le> n" by presburger
    finally show ?thesis .
  qed
qed


lemma exponent_upper:
  assumes "\<bar>x\<bar> < 2 ^ 52"
  shows "exponent x \<le> 51"
proof (cases "1 \<le> \<bar>x\<bar>")
  case True
  define n where "n = \<lfloor>\<bar>x\<bar>\<rfloor>"
  have n: "0 < n" using True by (simp add: n_def)
  have "rat_of_int n \<le> \<bar>x\<bar>" by (simp add: n_def)
  then have "rat_of_int n < 2 ^ 52" using assms by linarith
  then have "n < 2 ^ 52" by (metis of_int_less_iff of_int_numeral of_int_power)
  with bit_length_lower[OF n] have lt: "(2::int) ^ nat (bit_length n - 1) < 2 ^ 52" by linarith
  have "nat (bit_length n - 1) < 52"
    by (rule power_less_imp_less_exp[OF _ lt]) simp
  then show ?thesis using True by (simp add: exponent_def n_def)
next
  case False
  then show ?thesis using bit_length_nonneg[of "\<lceil>1 / \<bar>x\<bar>\<rceil> - 1"] by (simp add: exponent_def)
qed

lemma round_half_even_of_int: "round_half_even (of_int m) = m"
  by (simp add: round_half_even_def)

lemma round_binary64_half:
  assumes "\<bar>h\<bar> < 2 ^ 53"
  shows "round_binary64 (of_int h / 2) = Some (of_int h / 2)"
proof (cases "h = 0")
  case True
  then show ?thesis by (simp add: round_binary64_def)
next
  case False
  define x :: rat where "x = of_int h / 2"
  have x0: "x \<noteq> 0" using False by (simp add: x_def)
  have "rat_of_int \<bar>h\<bar> < 2 ^ 53"
    using assms by (metis of_int_less_iff of_int_numeral of_int_power)
  then have xb: "\<bar>x\<bar> < 2 ^ 52" by (simp add: x_def)
  define q where "q = max (exponent x - 52) (- 1074)"
  have q: "q \<le> - 1" using exponent_upper[OF xb] by (simp add: q_def)
  define k where "k = nat (- q) - 1"
  have nk: "nat (- q) = Suc k" using q by (simp add: k_def)
  have p: "pow2 q = 1 / 2 ^ Suc k" using q nk by (simp add: pow2_def)
  have "x / pow2 q = of_int (h * 2 ^ k)" by (simp add: p x_def)
  then have r: "round_half_even (x / pow2 q) = h * 2 ^ k"
    by (simp only: round_half_even_of_int)
  have y: "of_int (h * 2 ^ k) * pow2 q = x" by (simp add: p x_def)
  have "(2::rat) ^ 52 \<le> 2 ^ 1024" by simp
  then have big: "\<not> 2 ^ 1024 \<le> \<bar>x\<bar>" using xb by linarith
  have "round_binary64 x =
          (if 2 ^ 1024 \<le> \<bar>rat_of_int (round_half_even (x / pow2 q)) * pow2 q\<bar> then None
           else Some (rat_of_int (round_half_even (x / pow2 q)) * pow2 q))"
    using x0 by (simp only: round_binary64_def Let_def q_def if_False)
  also have "\<dots> = Some x"
    using big by (simp only: r y if_False)
  finally show ?thesis by (simp only: x_def)
qed

lemma int_truediv_two:
  "\<bar>n\<bar> < 2 ^ 53 \<Longrightarrow> int_truediv n 2 = Inr (Finite (of_int n / 2))"
  using round_binary64_half[of n] by (simp add: int_truediv_def)

lemma int_to_float_exact:
  assumes "2 * \<bar>k\<bar> < 2 ^ 53"
  shows "int_to_float k = Inr (Finite (of_int k))"
proof -
  have "\<bar>2 * k\<bar> < 2 ^ 53" using assms by simp
  from round_binary64_half[OF this] show ?thesis by (simp add: int_to_float_def)
qed

lemma float_add_halves:
  assumes "\<bar>a + b\<bar> < 2 ^ 53"
  shows "float_add (Finite (of_int a / 2)) (Finite (of_int b / 2)) = Finite (of_int (a + b) / 2)"
proof -
  have e: "rat_of_int a / 2 + rat_of_int b / 2 = of_int (a + b) / 2"
    by (simp add: add_divide_distrib)
  show ?thesis
    by (simp only: float_add.simps e round_binary64_half[OF assms] option.case)
qed

lemma expected_terms_float:
  "\<bar>H\<bar> + (\<Sum>t \<leftarrow> ts. \<bar>sign t * count t * (size_d t + 1)\<bar>) < 2 ^ 53 \<Longrightarrow>
   expected_terms ts (PyFloat (Finite (of_int H / 2))) =
     Inr (PyFloat (Finite (of_int (H + (\<Sum>t \<leftarrow> ts. sign t * count t * (size_d t + 1))) / 2)))"
proof (induction ts arbitrary: H)
  case Nil
  then show ?case by simp
next
  case (Cons t ts)
  define n where "n = sign t * count t * (size_d t + 1)"
  have s: "0 \<le> (\<Sum>t \<leftarrow> ts. \<bar>sign t * count t * (size_d t + 1)\<bar>)"
    by (rule sum_list_nonneg) auto
  have b: "\<bar>H\<bar> + \<bar>n\<bar> + (\<Sum>t \<leftarrow> ts. \<bar>sign t * count t * (size_d t + 1)\<bar>) < 2 ^ 53"
    using Cons.prems by (simp add: n_def)
  have n: "\<bar>n\<bar> < 2 ^ 53" using b s by linarith
  have hn: "\<bar>H + n\<bar> < 2 ^ 53" using b s by linarith
  have nx: "\<bar>H + n\<bar> + (\<Sum>t \<leftarrow> ts. \<bar>sign t * count t * (size_d t + 1)\<bar>) < 2 ^ 53"
    using b by linarith
  show ?case
    using int_truediv_two[OF n] float_add_halves[OF hn] Cons.IH[OF nx]
    by (simp add: n_def[symmetric] add_float_def add.assoc)
qed

lemma expected_terms_int:
  assumes "2 * \<bar>M\<bar> + (\<Sum>t \<leftarrow> ts. \<bar>sign t * count t * (size_d t + 1)\<bar>) < 2 ^ 53"
    and "ts \<noteq> []"
  shows "expected_terms ts (PyInt M) =
     Inr (PyFloat (Finite (of_int M + of_int (\<Sum>t \<leftarrow> ts. sign t * count t * (size_d t + 1)) / 2)))"
proof -
  obtain t rest where ts: "ts = t # rest" using assms(2) by (cases ts) auto
  define n where "n = sign t * count t * (size_d t + 1)"
  have s: "0 \<le> (\<Sum>t \<leftarrow> rest. \<bar>sign t * count t * (size_d t + 1)\<bar>)"
    by (rule sum_list_nonneg) auto
  have b: "2 * \<bar>M\<bar> + \<bar>n\<bar> + (\<Sum>t \<leftarrow> rest. \<bar>sign t * count t * (size_d t + 1)\<bar>) < 2 ^ 53"
    using assms(1) by (simp add: ts n_def)
  have n: "\<bar>n\<bar> < 2 ^ 53" using b s by linarith
  have m: "2 * \<bar>M\<bar> < 2 ^ 53" using b s by linarith
  have hn: "\<bar>2 * M + n\<bar> < 2 ^ 53" using b s by linarith
  have nx: "\<bar>2 * M + n\<bar> + (\<Sum>t \<leftarrow> rest. \<bar>sign t * count t * (size_d t + 1)\<bar>) < 2 ^ 53"
    using b by linarith
  have M2: "rat_of_int M = of_int (2 * M) / 2" by simp
  have "float_add (Finite (of_int M)) (Finite (of_int n / 2)) = Finite (of_int (2 * M + n) / 2)"
    using float_add_halves[OF hn] by (simp only: M2)
  then show ?thesis
    using int_truediv_two[OF n] int_to_float_exact[OF m] expected_terms_float[OF nx]
    by (simp add: ts n_def[symmetric] add_float_def add.assoc add_divide_distrib)
qed

lemma abs_term_numbers:
  "list_all valid_term ts \<Longrightarrow>
   (\<Sum>t \<leftarrow> ts. \<bar>sign t * count t * (size_d t + 1)\<bar>) = (\<Sum>t \<leftarrow> ts. count t * (size_d t + 1))"
proof (induction ts)
  case Nil
  then show ?case by simp
next
  case (Cons t ts)
  then have "valid_term t" by simp
  then have "\<bar>sign t * count t * (size_d t + 1)\<bar> = count t * (size_d t + 1)"
    by (auto simp: valid_term_def abs_mult)
  then show ?case using Cons by simp
qed

lemma sum_of_halves:
  "(\<Sum>t \<leftarrow> ts. rat_of_int (sign t) * of_int (count t) * (of_int (size_d t) + 1) / 2) =
   of_int (\<Sum>t \<leftarrow> ts. sign t * count t * (size_d t + 1)) / 2"
  by (induction ts) (simp_all add: add_divide_distrib)

lemma floor_numeral_div:
  "\<lfloor>numeral a / numeral b :: rat\<rfloor> = numeral a div numeral b"
  "\<lfloor>- (numeral a / numeral b) :: rat\<rfloor> = - numeral a div numeral b"
  using floor_divide_of_int_eq[of "numeral a" "numeral b", where ?'a = rat]
    floor_divide_of_int_eq[of "- numeral a" "numeral b", where ?'a = rat]
  by simp_all

lemma ceiling_numeral_div:
  "\<lceil>numeral a / numeral b :: rat\<rceil> = - (- numeral a div numeral b)"
  "\<lceil>- (numeral a / numeral b) :: rat\<rceil> = - (numeral a div numeral b)"
  using floor_numeral_div[of a b] by (simp_all add: ceiling_def)

lemmas binary64_eval =
  round_binary64_def exponent_def pow2_def round_half_even_def Let_def bit_length.simps
  floor_numeral_div ceiling_numeral_div int_truediv_def int_to_float_def add_float_def

section \<open>Properties of checks and contests\<close>

lemma resolve_check_valid:
  "valid_state st \<Longrightarrow>
   \<exists>c s1. resolve_check rnd m d st rng = (Inr c, s1) \<and> dc c = d \<and> modifier_c c = m \<and>
          total_c c = natural c + m"
  by (auto simp add: valid_state_def resolve_check_def rules_roll_d20_def Let_def
           split: prod.splits)

lemma resolve_check_invalid:
  "\<not> valid_state st \<Longrightarrow>
   resolve_check rnd m d st rng = (Inl (ValueError Bad_advantage_state), rng)"
  by (simp add: valid_state_def resolve_check_def rules_roll_d20_def Let_def)

lemma resolve_contest_invalid_a:
  "\<not> valid_state advantage_a \<Longrightarrow>
   resolve_contest rnd ma mb advantage_a advantage_b rng =
     (Inl (ValueError Bad_advantage_state), rng)"
  by (simp add: resolve_contest_def resolve_check_invalid)

lemma resolve_contest_invalid_b:
  assumes "valid_state advantage_a" and "\<not> valid_state advantage_b"
  shows "resolve_contest rnd ma mb advantage_a advantage_b rng =
           (Inl (ValueError Bad_advantage_state), snd (resolve_check rnd ma 0 advantage_a rng))"
proof -
  obtain ca s1 where a: "resolve_check rnd ma 0 advantage_a rng = (Inr ca, s1)"
    using resolve_check_valid[OF assms(1), of rnd ma 0 rng] by auto
  show ?thesis using a assms(2) by (simp add: resolve_contest_def resolve_check_invalid)
qed

lemma resolve_contest_valid:
  assumes "valid_state advantage_a" and "valid_state advantage_b"
  shows "\<exists>ca cb s1 s2.
           resolve_check rnd modifier_a 0 advantage_a rng = (Inr ca, s1) \<and>
           resolve_check rnd modifier_b 0 advantage_b s1 = (Inr cb, s2) \<and>
           resolve_contest rnd modifier_a modifier_b advantage_a advantage_b rng =
             (Inr \<lparr>total_a = total_c ca, total_b = total_c cb,
                   winner = (if total_c ca > total_c cb then Some ''a''
                             else if total_c cb > total_c ca then Some ''b'' else None),
                   check_a = ca, check_b = cb\<rparr>, s2) \<and>
           dc ca = 0 \<and> dc cb = 0"
proof -
  obtain ca s1 where a: "resolve_check rnd modifier_a 0 advantage_a rng = (Inr ca, s1)" "dc ca = 0"
    using resolve_check_valid[OF assms(1), of rnd modifier_a 0 rng] by auto
  obtain cb s2 where b: "resolve_check rnd modifier_b 0 advantage_b s1 = (Inr cb, s2)" "dc cb = 0"
    using resolve_check_valid[OF assms(2), of rnd modifier_b 0 s1] by auto
  show ?thesis using a b by (simp add: resolve_contest_def Let_def)
qed

lemma randint_ok_counter_rng: "randint_ok counter_rng"
proof -
  have "lo \<le> lo + int s mod (hi - lo + 1) \<and> lo + int s mod (hi - lo + 1) \<le> hi"
    if "lo \<le> hi" for s :: nat and lo hi :: int
  proof -
    from that have p: "0 < hi - lo + 1" by simp
    have "0 \<le> int s mod (hi - lo + 1)" by (rule pos_mod_sign[OF p])
    moreover have "int s mod (hi - lo + 1) < hi - lo + 1" by (rule pos_mod_bound[OF p])
    ultimately show ?thesis by linarith
  qed
  then show ?thesis by (simp add: randint_ok_def counter_rng_def)
qed

section \<open>Examples evaluated on the counter source\<close>

lemma lower_Normal: "lower ''Normal'' = ''normal''"
  by code_simp

lemma lower_ADVANTAGE: "lower ''ADVANTAGE'' = ''advantage''"
  by code_simp

lemma lower_DisAdvantage: "lower ''DisAdvantage'' = ''disadvantage''"
  by code_simp

lemma lower_normal: "lower ''normal'' = ''normal''"
  by code_simp

lemma lower_lucky: "lower ''lucky'' = ''lucky''"
  by code_simp

lemma parse_two_dice_two_modifiers:
  "parse_expression ''2d6-3d4+1-2'' =
     Inr \<lparr>dice = [\<lparr>count = 2, size_d = 6, sign = 1\<rparr>, \<lparr>count = 3, size_d = 4, sign = - 1\<rparr>],
          modifiers = [\<lparr>value_m = 1\<rparr>, \<lparr>value_m = - 2\<rparr>]\<rparr>"
  by code_simp

lemma check_a_example:
  "resolve_check counter_rng 4 0 ''Normal'' 7 =
     (Inr \<lparr>total_c = 12, modifier_c = 4, dc = 0, success = True,
            natural = 8, roll_details = [8]\<rparr>, 22)"
  by code_simp

lemma check_b_example:
  "resolve_check counter_rng 1 0 ''ADVANTAGE'' 22 =
     (Inr \<lparr>total_c = 9, modifier_c = 1, dc = 0, success = True,
            natural = 8, roll_details = [3, 8]\<rparr>, 202)"
  by code_simp

lemma contest_example:
  "resolve_contest counter_rng 4 1 ''Normal'' ''ADVANTAGE'' 7 =
     (Inr \<lparr>total_a = 12, total_b = 9, winner = Some ''a'',
           check_a = \<lparr>total_c = 12, modifier_c = 4, dc = 0, success = True,
                      natural = 8, roll_details = [8]\<rparr>,
           check_b = \<lparr>total_c = 9, modifier_c = 1, dc = 0, success = True,
                      natural = 8, roll_details = [3, 8]\<rparr>\<rparr>, 202)"
  by code_simp

lemma lower_Stealth: "lower ''Stealth'' = ''stealth''"
  by code_simp

lemma lower_test_names:
  "lower ''stealth'' = ''stealth''" "lower ''acrobatics'' = ''acrobatics''"
  "lower ''dexterity'' = ''dexterity''"
  by code_simp+

lemma mk_rogue:
  "mk_Character ''Nyx'' 5
     \<lparr>strength = 15, dexterity = 16, constitution = 14,
      intelligence = 12, wisdom = 10, charisma = 8\<rparr>
     {''stealth'', ''acrobatics''} {''stealth''} {''dexterity''} = Inr rogue"
  by (simp add: mk_Character_def proficiency_bonus_def rogue_def lower_test_names)

lemma skill_stealth: "SKILL_ABILITIES ''stealth'' = Some ''dexterity''"
  by (simp add: SKILL_ABILITIES_def)

lemma rogue_dexterity: "ability_modifier rogue ''dexterity'' = Inr 3"
  by code_simp

lemma rogue_proficiency: "proficiency_bonus (level rogue) = Inr 3"
  by (simp add: rogue_def proficiency_bonus_def)

lemma parse_1d6:
  "parse_expression ''1d6'' =
     Inr \<lparr>dice = [\<lparr>count = 1, size_d = 6, sign = 1\<rparr>], modifiers = []\<rparr>"
  by code_simp

lemma parse_2d4_plus_2:
  "parse_expression ''2d4+2'' =
     Inr \<lparr>dice = [\<lparr>count = 2, size_d = 4, sign = 1\<rparr>], modifiers = [\<lparr>value_m = 2\<rparr>]\<rparr>"
  by code_simp

lemma parse_large_die:
  "parse_expression ''1d18014398509481985'' =
     Inr \<lparr>dice = [\<lparr>count = 1, size_d = 18014398509481985, sign = 1\<rparr>], modifiers = []\<rparr>"
  by code_simp

lemma parse_three_terms:
  "parse_expression ''3d8-1D4+2'' =
     Inr \<lparr>dice = [\<lparr>count = 3, size_d = 8, sign = 1\<rparr>, \<lparr>count = 1, size_d = 4, sign = - 1\<rparr>],
          modifiers = [\<lparr>value_m = 2\<rparr>]\<rparr>"
  by code_simp

lemma parse_with_zero:
  "parse_expression ''1d6+0d6+2d4'' =
     Inr \<lparr>dice = [\<lparr>count = 1, size_d = 6, sign = 1\<rparr>, \<lparr>count = 0, size_d = 6, sign = 1\<rparr>,
                  \<lparr>count = 2, size_d = 4, sign = 1\<rparr>],
          modifiers = []\<rparr>"
  by code_simp

lemma parse_only_zero:
  "parse_expression ''0d6'' =
     Inr \<lparr>dice = [\<lparr>count = 0, size_d = 6, sign = 1\<rparr>], modifiers = []\<rparr>"
  by code_simp

lemma parse_tie:
  "parse_expression ''1d2+4503599627370496'' =
     Inr \<lparr>dice = [\<lparr>count = 1, size_d = 2, sign = 1\<rparr>],
          modifiers = [\<lparr>value_m = 4503599627370496\<rparr>]\<rparr>"
  by code_simp

lemma expected_value_tie:
  "expected_value ''1d2+4503599627370496'' = Inr (PyFloat (Finite 4503599627370498))"
  by (simp add: parse_tie expected_value_def modifier_total_def binary64_eval)

lemma parse_huge:
  "parse_expression ''1d400000000000000000000000000000000000000000000000000000000000000000000000000000000000000000000000000000000000000000000000000000000000000000000000000000000000000000000000000000000000000000000000000000000000000000000000000000000000000000000000000000000000000000000000000000000000000000000000000000000000000000000'' =
     Inr \<lparr>dice = [\<lparr>count = 1, size_d = 400000000000000000000000000000000000000000000000000000000000000000000000000000000000000000000000000000000000000000000000000000000000000000000000000000000000000000000000000000000000000000000000000000000000000000000000000000000000000000000000000000000000000000000000000000000000000000000000000000000000000000000, sign = 1\<rparr>], modifiers = []\<rparr>"
  by code_simp

lemma expected_value_overflow:
  "expected_value ''1d400000000000000000000000000000000000000000000000000000000000000000000000000000000000000000000000000000000000000000000000000000000000000000000000000000000000000000000000000000000000000000000000000000000000000000000000000000000000000000000000000000000000000000000000000000000000000000000000000000000000000000000'' = Inl (OverflowError Division_too_large)"
  by (simp add: parse_huge expected_value_def modifier_total_def binary64_eval)

lemma expected_three_terms:
  "expected_value ''3d8-1D4+2'' = Inr (PyFloat (Finite 13))"
  using expected_terms_int[of 2
      "[\<lparr>count = 3, size_d = 8, sign = 1\<rparr>, \<lparr>count = 1, size_d = 4, sign = - 1\<rparr>]"]
  by (simp add: expected_value_def parse_three_terms modifier_total_def)

section \<open>The claims\<close>

text \<open>
  C1.  When the expression parses, \<open>roll\<close> returns a result whose total is the sum,
  over the dice terms in parse order, of the sign times the sum of the term's raw
  draws, plus the sum of the modifier values.  \<open>dice_results\<close> has one list per
  dice term, in parse order, with every value negated when the sign of the term is
  -1, and \<open>modifiers\<close> is the list of the modifier values, not their sum.  Each term
  has \<open>count\<close> raw draws, requested with the bounds 1 and \<open>size\<close>, so they lie in
  that range for every source that respects the bounds it is given.  (That the
  draws are uniformly distributed is a property of the source and is not part of
  the statement.)
\<close>

theorem roll_result:
  assumes "parse_expression expr = Inr e"
  shows "roll rnd expr rng =
           (Inr \<lparr>total_r = (\<Sum>(t, raws) \<leftarrow> zip (dice e) (raw_rolls rnd (dice e) rng).
                               sign t * sum_list raws)
                            + sum_list (map value_m (modifiers e)),
                 dice_results = map2 shown_rolls (dice e) (raw_rolls rnd (dice e) rng),
                 modifiers_r = map value_m (modifiers e)\<rparr>,
            rng_after rnd (dice e) rng) \<and>
         length (raw_rolls rnd (dice e) rng) = length (dice e) \<and>
         (\<forall>i < length (dice e).
            length (raw_rolls rnd (dice e) rng ! i) = nat (count (dice e ! i)) \<and>
            (randint_ok rnd \<longrightarrow>
               (\<forall>v \<in> set (raw_rolls rnd (dice e) rng ! i). 1 \<le> v \<and> v \<le> size_d (dice e ! i))))"
proof -
  have v: "list_all valid_term (dice e)"
    using assms by (rule parse_expression_valid)
  have "roll rnd expr rng =
           (Inr \<lparr>total_r = (\<Sum>(t, raws) \<leftarrow> zip (dice e) (raw_rolls rnd (dice e) rng).
                               sign t * sum_list raws)
                            + sum_list (map value_m (modifiers e)),
                 dice_results = map2 shown_rolls (dice e) (raw_rolls rnd (dice e) rng),
                 modifiers_r = map value_m (modifiers e)\<rparr>,
            rng_after rnd (dice e) rng)"
    using assms by (simp add: roll_def roll_terms_closed[OF v] modifier_total_def)
  moreover have "length (raw_rolls rnd (dice e) rng ! i) = nat (count (dice e ! i))"
    if "i < length (dice e)" for i
    using that by (rule raw_rolls_nth_length)
  moreover have "1 \<le> x \<and> x \<le> size_d (dice e ! i)"
    if "i < length (dice e)" "randint_ok rnd" "x \<in> set (raw_rolls rnd (dice e) rng ! i)" for i x
    using raw_rolls_range[OF that(2) v that(1) that(3)] .
  ultimately show ?thesis by (simp add: length_raw_rolls)
qed

theorem roll_result_witness:
  "parse_expression ''2d6-3d4+1-2'' =
     Inr \<lparr>dice = [\<lparr>count = 2, size_d = 6, sign = 1\<rparr>, \<lparr>count = 3, size_d = 4, sign = - 1\<rparr>],
          modifiers = [\<lparr>value_m = 1\<rparr>, \<lparr>value_m = - 2\<rparr>]\<rparr> \<and>
   roll counter_rng ''2d6-3d4+1-2'' 5 =
     (Inr \<lparr>total_r = 5, dice_results = [[6, 5], [- 2, - 1, - 2]], modifiers_r = [1, - 2]\<rparr>, 1336)"
  using roll_result[OF parse_two_dice_two_modifiers, of counter_rng 5]
    parse_two_dice_two_modifiers randint_ok_counter_rng
  by (simp add: counter_rng_def shown_rolls_def numeral_eq_Suc)

text \<open>
  C2.  For all modifiers and valid advantage states, \<open>resolve_contest\<close> resolves two
  checks with one shared source: the check of A runs on the source as given and
  the check of B on the source as A's check left it, both with \<open>dc = 0\<close>.  The
  totals of the result are the totals of the two checks, and the winner is "a"
  exactly when \<open>total_a > total_b\<close>, "b" exactly when \<open>total_b > total_a\<close>, and absent
  exactly when the totals are equal.
\<close>

theorem resolve_contest_result:
  assumes "valid_state advantage_a" and "valid_state advantage_b"
  shows "\<exists>r ca cb s1 s2.
           resolve_check rnd modifier_a 0 advantage_a rng = (Inr ca, s1) \<and>
           resolve_check rnd modifier_b 0 advantage_b s1 = (Inr cb, s2) \<and>
           resolve_contest rnd modifier_a modifier_b advantage_a advantage_b rng = (Inr r, s2) \<and>
           check_a r = ca \<and> check_b r = cb \<and> dc ca = 0 \<and> dc cb = 0 \<and>
           total_a r = total_c ca \<and> total_b r = total_c cb \<and>
           (winner r = Some ''a'' \<longleftrightarrow> total_a r > total_b r) \<and>
           (winner r = Some ''b'' \<longleftrightarrow> total_b r > total_a r) \<and>
           (winner r = None \<longleftrightarrow> total_a r = total_b r)"
proof -
  obtain ca cb s1 s2 where
    a: "resolve_check rnd modifier_a 0 advantage_a rng = (Inr ca, s1)" and
    b: "resolve_check rnd modifier_b 0 advantage_b s1 = (Inr cb, s2)" and
    c: "resolve_contest rnd modifier_a modifier_b advantage_a advantage_b rng =
             (Inr \<lparr>total_a = total_c ca, total_b = total_c cb,
                   winner = (if total_c ca > total_c cb then Some ''a''
                             else if total_c cb > total_c ca then Some ''b'' else None),
                   check_a = ca, check_b = cb\<rparr>, s2)" and
    d: "dc ca = 0" "dc cb = 0"
    using resolve_contest_valid[OF assms, of rnd modifier_a rng modifier_b] by blast
  show ?thesis
    using a b d unfolding c by auto
qed

theorem resolve_contest_result_witness:
  "valid_state ''Normal'' \<and> valid_state ''ADVANTAGE'' \<and>
   resolve_check counter_rng 4 0 ''Normal'' 7 =
     (Inr \<lparr>total_c = 12, modifier_c = 4, dc = 0, success = True,
            natural = 8, roll_details = [8]\<rparr>, 22) \<and>
   resolve_check counter_rng 1 0 ''ADVANTAGE'' 22 =
     (Inr \<lparr>total_c = 9, modifier_c = 1, dc = 0, success = True,
            natural = 8, roll_details = [3, 8]\<rparr>, 202) \<and>
   fst (resolve_contest counter_rng 4 1 ''Normal'' ''ADVANTAGE'' 7) =
     Inr \<lparr>total_a = 12, total_b = 9, winner = Some ''a'',
           check_a = \<lparr>total_c = 12, modifier_c = 4, dc = 0, success = True,
                      natural = 8, roll_details = [8]\<rparr>,
           check_b = \<lparr>total_c = 9, modifier_c = 1, dc = 0, success = True,
                      natural = 8, roll_details = [3, 8]\<rparr>\<rparr>"
proof -
  have va: "valid_state ''Normal''"
    by (simp add: valid_state_def lower_Normal)
  have vb: "valid_state ''ADVANTAGE''"
    by (simp add: valid_state_def lower_ADVANTAGE)
  from resolve_contest_result[OF va vb, of counter_rng 4 7 1]
  obtain r ca cb s1 s2 where
    "resolve_check counter_rng 4 0 ''Normal'' 7 = (Inr ca, s1)"
    "resolve_check counter_rng 1 0 ''ADVANTAGE'' s1 = (Inr cb, s2)"
    "resolve_contest counter_rng 4 1 ''Normal'' ''ADVANTAGE'' 7 = (Inr r, s2)"
    "check_a r = ca" "check_b r = cb"
    by blast
  then show ?thesis
    using va vb contest_example check_a_example check_b_example by auto
qed

text \<open>
  C3.  For every modifier, every dc and each of the three advantage states (in any
  letter case), \<open>resolve_check\<close> returns a result in which \<open>natural\<close> is the value
  kept by the roller that the state selects, \<open>total = natural + modifier\<close>,
  \<open>success\<close> holds exactly when \<open>total \<ge> dc\<close>, and \<open>roll_details\<close> is the single
  value \<open>natural\<close> for "normal" and the two raw draws, in draw order, for
  "advantage" and "disadvantage".
\<close>

theorem resolve_check_result:
  "(lower advantage = ''normal'' \<longrightarrow>
      (case roll_d20 rnd rng of (v, s1) \<Rightarrow>
         resolve_check rnd m d advantage rng =
           (Inr \<lparr>total_c = v + m, modifier_c = m, dc = d, success = (d \<le> v + m),
                 natural = v, roll_details = [v]\<rparr>, s1))) \<and>
   (lower advantage = ''advantage'' \<longrightarrow>
      (case roll_with_advantage rnd rng of ((v, (a, b)), s1) \<Rightarrow>
         resolve_check rnd m d advantage rng =
           (Inr \<lparr>total_c = v + m, modifier_c = m, dc = d, success = (d \<le> v + m),
                 natural = v, roll_details = [a, b]\<rparr>, s1))) \<and>
   (lower advantage = ''disadvantage'' \<longrightarrow>
      (case roll_with_disadvantage rnd rng of ((v, (a, b)), s1) \<Rightarrow>
         resolve_check rnd m d advantage rng =
           (Inr \<lparr>total_c = v + m, modifier_c = m, dc = d, success = (d \<le> v + m),
                 natural = v, roll_details = [a, b]\<rparr>, s1)))"
  by (simp add: resolve_check_def rules_roll_d20_def Let_def split: prod.splits)

theorem resolve_check_result_witness:
  "resolve_check counter_rng 5 10 ''normal'' 42 =
     (Inr \<lparr>total_c = 8, modifier_c = 5, dc = 10, success = False,
            natural = 3, roll_details = [3]\<rparr>, 127) \<and>
   resolve_check counter_rng 5 10 ''ADVANTAGE'' 42 =
     (Inr \<lparr>total_c = 13, modifier_c = 5, dc = 10, success = True,
            natural = 8, roll_details = [3, 8]\<rparr>, 382) \<and>
   resolve_check counter_rng 5 10 ''DisAdvantage'' 42 =
     (Inr \<lparr>total_c = 8, modifier_c = 5, dc = 10, success = False,
            natural = 3, roll_details = [3, 8]\<rparr>, 382)"
  using
    resolve_check_result[where advantage = "''normal''" and rnd = counter_rng
      and rng = 42 and m = 5 and d = 10]
    resolve_check_result[where advantage = "''ADVANTAGE''" and rnd = counter_rng
      and rng = 42 and m = 5 and d = 10]
    resolve_check_result[where advantage = "''DisAdvantage''" and rnd = counter_rng
      and rng = 42 and m = 5 and d = 10]
  by (simp add: lower_normal lower_ADVANTAGE lower_DisAdvantage roll_d20_def
        roll_with_advantage_def roll_with_disadvantage_def counter_rng_def)

text \<open>
  C4.  For every source, \<open>roll_with_advantage\<close> makes exactly two draws with the
  bounds 1 and 20, the second on the state the first one left, keeps the larger
  value and returns both values as a pair in draw order.  \<open>roll_with_disadvantage\<close>
  makes the same two draws in the same order and keeps the smaller value.  From
  the same state both return the same pair and leave the source in the same state.
\<close>

theorem roll_with_advantage_and_disadvantage:
  "(case rnd rng 1 20 of (first, s1) \<Rightarrow>
      (case rnd s1 1 20 of (second, s2) \<Rightarrow>
         roll_with_advantage rnd rng = ((max first second, (first, second)), s2) \<and>
         roll_with_disadvantage rnd rng = ((min first second, (first, second)), s2))) \<and>
   snd (fst (roll_with_advantage rnd rng)) = snd (fst (roll_with_disadvantage rnd rng)) \<and>
   snd (roll_with_advantage rnd rng) = snd (roll_with_disadvantage rnd rng)"
  by (auto simp add: roll_with_advantage_def roll_with_disadvantage_def split: prod.splits)

text \<open>
  C9, as stated: \<open>resolve_check\<close>, and hence \<open>resolve_contest\<close>, raises a ValueError
  for every string that is not one of the three advantage states, without
  consuming any value of the random source.  For \<open>resolve_contest\<close> this fails when
  the state of A is valid and the state of B is not: the check of A has drawn
  before the state of B is looked at.
\<close>

theorem advantage_state_contest_counterexample:
  "\<not> valid_state ''lucky'' \<and>
   fst (resolve_contest counter_rng 0 0 ''normal'' ''lucky'' 7) =
     Inl (ValueError Bad_advantage_state) \<and>
   snd (resolve_contest counter_rng 0 0 ''normal'' ''lucky'' 7) \<noteq> 7"
  by code_simp

text \<open>
  C9, amended.  \<open>resolve_check\<close> accepts the strings "normal", "advantage" and
  "disadvantage" in any letter case and raises a ValueError for every other
  string, leaving the random source as it was.  \<open>resolve_contest\<close> accepts exactly
  the pairs of such strings; it raises the same ValueError with the source
  untouched when the state of A is not valid, and, when only the state of B is not
  valid, after the draws of A's check and no others.
\<close>

theorem advantage_state_errors:
  "(valid_state st \<longrightarrow> (\<exists>c s1. resolve_check rnd m d st rng = (Inr c, s1))) \<and>
   (\<not> valid_state st \<longrightarrow>
      resolve_check rnd m d st rng = (Inl (ValueError Bad_advantage_state), rng)) \<and>
   (valid_state st \<and> valid_state st' \<longrightarrow>
      (\<exists>r s2. resolve_contest rnd m m' st st' rng = (Inr r, s2))) \<and>
   (\<not> valid_state st \<longrightarrow>
      resolve_contest rnd m m' st st' rng = (Inl (ValueError Bad_advantage_state), rng)) \<and>
   (valid_state st \<and> \<not> valid_state st' \<longrightarrow>
      resolve_contest rnd m m' st st' rng =
        (Inl (ValueError Bad_advantage_state), snd (resolve_check rnd m 0 st rng)))"
proof -
  have "\<exists>c s1. resolve_check rnd m d st rng = (Inr c, s1)" if "valid_state st"
    using resolve_check_valid[OF that, of rnd m d rng] by blast
  moreover have "\<exists>r s2. resolve_contest rnd m m' st st' rng = (Inr r, s2)"
    if "valid_state st" "valid_state st'"
    using resolve_contest_valid[OF that, of rnd m rng m'] by blast
  ultimately show ?thesis
    by (simp add: resolve_check_invalid resolve_contest_invalid_a resolve_contest_invalid_b)
qed

theorem advantage_state_errors_witness:
  "valid_state ''Normal'' \<and> valid_state ''ADVANTAGE'' \<and> \<not> valid_state ''lucky'' \<and>
   resolve_check counter_rng 4 0 ''lucky'' 7 = (Inl (ValueError Bad_advantage_state), 7) \<and>
   resolve_contest counter_rng 4 1 ''lucky'' ''Normal'' 7 =
     (Inl (ValueError Bad_advantage_state), 7) \<and>
   resolve_contest counter_rng 4 1 ''Normal'' ''lucky'' 7 =
     (Inl (ValueError Bad_advantage_state), 22) \<and>
   fst (resolve_check counter_rng 4 0 ''Normal'' 7) \<noteq> Inl (ValueError Bad_advantage_state) \<and>
   fst (resolve_contest counter_rng 4 1 ''Normal'' ''ADVANTAGE'' 7) \<noteq>
     Inl (ValueError Bad_advantage_state)"
proof -
  have va: "valid_state ''Normal''"
    by (simp add: valid_state_def lower_Normal)
  have vb: "valid_state ''ADVANTAGE''"
    by (simp add: valid_state_def lower_ADVANTAGE)
  have vc: "\<not> valid_state ''lucky''"
    by (simp add: valid_state_def lower_lucky)
  show ?thesis
    using va vb vc
      advantage_state_errors[where st = "''lucky''" and st' = "''Normal''"
        and rnd = counter_rng and m = 4 and m' = 1 and d = 0 and rng = 7]
      advantage_state_errors[where st = "''Normal''" and st' = "''lucky''"
        and rnd = counter_rng and m = 4 and m' = 1 and d = 0 and rng = 7]
      advantage_state_errors[where st = "''Normal''" and st' = "''ADVANTAGE''"
        and rnd = counter_rng and m = 4 and m' = 1 and d = 0 and rng = 7]
      check_a_example
    by auto
qed

text \<open>
  C5.  The claim: \<open>parse_expression\<close> fails exactly when the input is empty after
  the removal of blanks, has a token that is neither a dice term nor a signed
  integer, or has an empty token, such as a sign with nothing after it; "2d6+" and
  "+-3" must be rejected.  The code accepts both: the pattern of \<open>findall\<close> never
  matches a sign that no digits follow, so the sign is dropped before
  \<open>_parse_token\<close> and its two checks for an empty token can see it.
\<close>

theorem parse_stray_sign:
  "parse_expression ''2d6+'' =
     Inr \<lparr>dice = [\<lparr>count = 2, size_d = 6, sign = 1\<rparr>], modifiers = []\<rparr> \<and>
   parse_expression ''+-3'' = Inr \<lparr>dice = [], modifiers = [\<lparr>value_m = - 3\<rparr>]\<rparr>"
  by code_simp

text \<open>
  C6.  The claim: parsing ignores whitespace of every kind at every position, so an
  expression and the same expression without its whitespace parse alike.  The code
  removes the character U+0020 only; a tab at the edge of a token is tolerated by
  \<open>strip\<close> and \<open>int\<close>, a tab between two digits is not: "1<TAB>0" fails while "10"
  parses to the modifier 10.
\<close>

theorem parse_inner_tab:
  "is_space (CHR 0x09) \<and>
   parse_expression [CHR ''1'', CHR 0x09, CHR ''0''] = Inl (ValueError Invalid_literal) \<and>
   parse_expression ''10'' = Inr \<lparr>dice = [], modifiers = [\<lparr>value_m = 10\<rparr>]\<rparr>"
  by code_simp

text \<open>
  C7, as stated: whenever the expression parses, \<open>expected_value\<close> equals the sum
  over the dice terms of \<open>sign * count * (size + 1) / 2\<close> plus the sum of the
  modifier values.  The result is a binary64 float, so this fails once the numbers
  are too large to be exact: for "1d18014398509481985" the closed form is
  9007199254740993, which rounds to 9007199254740992.0.
\<close>

theorem expected_value_rounding_counterexample:
  "parse_expression ''1d18014398509481985'' =
     Inr \<lparr>dice = [\<lparr>count = 1, size_d = 18014398509481985, sign = 1\<rparr>], modifiers = []\<rparr> \<and>
   closed_form \<lparr>dice = [\<lparr>count = 1, size_d = 18014398509481985, sign = 1\<rparr>], modifiers = []\<rparr>
     = 9007199254740993 \<and>
   expected_value ''1d18014398509481985'' = Inr (PyFloat (Finite 9007199254740992))"
  by (simp add: parse_large_die expected_value_def closed_form_def modifier_total_def
        binary64_eval)

text \<open>
  C7, amended.  When the expression parses and twice the magnitude of the modifier
  total plus the sum of \<open>count * (size + 1)\<close> over the dice terms is below 2 ^ 53,
  \<open>expected_value\<close> returns a number equal to the sum over the dice terms of
  \<open>sign * count * (size + 1) / 2\<close> plus the sum of the modifier values.  It takes no
  random source.  In particular the expected value of "1d6" is 3.5 and that of
  "2d4+2" is 7.0.
\<close>

theorem expected_value_closed_form:
  "(parse_expression expr = Inr e \<and>
    2 * \<bar>modifier_total e\<bar> + (\<Sum>t \<leftarrow> dice e. count t * (size_d t + 1)) < 2 ^ 53 \<longrightarrow>
      (\<exists>v. expected_value expr = Inr v \<and> number_value v = Some (closed_form e))) \<and>
   expected_value ''1d6'' = Inr (PyFloat (Finite (7 / 2))) \<and>
   expected_value ''2d4+2'' = Inr (PyFloat (Finite 7))"
proof -
  have general: "\<exists>v. expected_value expr = Inr v \<and> number_value v = Some (closed_form e)"
    if p: "parse_expression expr = Inr e"
      and b: "2 * \<bar>modifier_total e\<bar> + (\<Sum>t \<leftarrow> dice e. count t * (size_d t + 1)) < 2 ^ 53"
    for expr e
  proof (cases "dice e = []")
    case True
    then show ?thesis
      using p by (simp add: expected_value_def closed_form_def modifier_total_def)
  next
    case False
    have v: "list_all valid_term (dice e)"
      using p by (rule parse_expression_valid)
    have b': "2 * \<bar>modifier_total e\<bar>
               + (\<Sum>t \<leftarrow> dice e. \<bar>sign t * count t * (size_d t + 1)\<bar>) < 2 ^ 53"
      using b by (simp only: abs_term_numbers[OF v])
    show ?thesis
      using p expected_terms_int[OF b' False]
      by (simp add: expected_value_def closed_form_def sum_of_halves modifier_total_def)
  qed
  have "expected_value ''1d6'' = Inr (PyFloat (Finite (7 / 2)))"
    using expected_terms_int[of 0 "[\<lparr>count = 1, size_d = 6, sign = 1\<rparr>]"]
    by (simp add: expected_value_def parse_1d6 modifier_total_def)
  moreover have "expected_value ''2d4+2'' = Inr (PyFloat (Finite 7))"
    using expected_terms_int[of 2 "[\<lparr>count = 2, size_d = 4, sign = 1\<rparr>]"]
    by (simp add: expected_value_def parse_2d4_plus_2 modifier_total_def)
  ultimately show ?thesis using general by blast
qed

theorem expected_value_closed_form_witness:
  "parse_expression ''3d8-1D4+2'' =
     Inr \<lparr>dice = [\<lparr>count = 3, size_d = 8, sign = 1\<rparr>, \<lparr>count = 1, size_d = 4, sign = - 1\<rparr>],
          modifiers = [\<lparr>value_m = 2\<rparr>]\<rparr> \<and>
   closed_form
     \<lparr>dice = [\<lparr>count = 3, size_d = 8, sign = 1\<rparr>, \<lparr>count = 1, size_d = 4, sign = - 1\<rparr>],
      modifiers = [\<lparr>value_m = 2\<rparr>]\<rparr> = 13 \<and>
   expected_value ''3d8-1D4+2'' = Inr (PyFloat (Finite 13))"
  using
    expected_value_closed_form[where expr = "''3d8-1D4+2''" and
      e = "\<lparr>dice = [\<lparr>count = 3, size_d = 8, sign = 1\<rparr>, \<lparr>count = 1, size_d = 4, sign = - 1\<rparr>],
            modifiers = [\<lparr>value_m = 2\<rparr>]\<rparr>"]
    parse_three_terms expected_three_terms
  by (simp add: closed_form_def modifier_total_def)

text \<open>
  C8.  A dice term with \<open>count = 0\<close> in a parsed expression gets an empty list at
  its position in \<open>dice_results\<close>, adds nothing to the total, and draws nothing: the
  terms after it continue with the source exactly as the terms before it left it.
\<close>

theorem zero_count_term:
  assumes "parse_expression expr = Inr e"
    and "dice e = pre @ t # post"
    and "count t = 0"
  shows "\<exists>r1 t1 s1 r2 t2 s2.
           roll_terms rnd pre [] (modifier_total e) rng = (r1, t1, s1) \<and>
           length r1 = length pre \<and>
           roll_terms rnd post [] 0 s1 = (r2, t2, s2) \<and>
           roll rnd expr rng =
             (Inr \<lparr>total_r = t1 + t2, dice_results = r1 @ [] # r2,
                   modifiers_r = map value_m (modifiers e)\<rparr>, s2)"
proof -
  obtain r1 t1 s1 where a: "roll_terms rnd pre [] (modifier_total e) rng = (r1, t1, s1)"
    by (cases "roll_terms rnd pre [] (modifier_total e) rng")
  obtain r2 t2 s2 where b: "roll_terms rnd post [] 0 s1 = (r2, t2, s2)"
    by (cases "roll_terms rnd post [] 0 s1")
  have l: "length r1 = length pre"
    using length_roll_terms[of rnd pre "[]" "modifier_total e" rng] a by simp
  have "roll_terms rnd (pre @ t # post) [] (modifier_total e) rng =
          roll_terms rnd post (r1 @ [[]]) t1 s1"
    using assms(3) a by (simp add: roll_terms_append)
  also have "\<dots> = ((r1 @ [[]]) @ r2, t1 + t2, s2)"
    using b roll_terms_acc[of rnd post "r1 @ [[]]" t1 s1] by simp
  finally have "roll rnd expr rng =
             (Inr \<lparr>total_r = t1 + t2, dice_results = r1 @ [] # r2,
                   modifiers_r = map value_m (modifiers e)\<rparr>, s2)"
    using assms(1,2) by (simp add: roll_def)
  then show ?thesis using a b l by blast
qed

theorem zero_count_term_witness:
  "parse_expression ''1d6+0d6+2d4'' =
     Inr \<lparr>dice = [\<lparr>count = 1, size_d = 6, sign = 1\<rparr>, \<lparr>count = 0, size_d = 6, sign = 1\<rparr>,
                  \<lparr>count = 2, size_d = 4, sign = 1\<rparr>],
          modifiers = []\<rparr> \<and>
   roll counter_rng ''1d6+0d6+2d4'' 5 =
     (Inr \<lparr>total_r = 9, dice_results = [[6], [], [1, 2]], modifiers_r = []\<rparr>, 148) \<and>
   roll counter_rng ''0d6'' 5 =
     (Inr \<lparr>total_r = 0, dice_results = [[]], modifiers_r = []\<rparr>, 5)"
  using
    zero_count_term[OF parse_with_zero,
      where pre = "[\<lparr>count = 1, size_d = 6, sign = 1\<rparr>]"
        and t = "\<lparr>count = 0, size_d = 6, sign = 1\<rparr>"
        and post = "[\<lparr>count = 2, size_d = 4, sign = 1\<rparr>]"
        and rnd = counter_rng and rng = 5]
    zero_count_term[OF parse_only_zero,
      where pre = "[]" and t = "\<lparr>count = 0, size_d = 6, sign = 1\<rparr>" and post = "[]"
        and rnd = counter_rng and rng = 5]
    parse_with_zero
  by (auto simp: counter_rng_def modifier_total_def numeral_eq_Suc)

text \<open>
  C10.  When the lower-cased skill name is in \<open>expertise_skills\<close>, \<open>skill_modifier\<close>
  is the modifier of the skill's governing ability plus exactly twice the
  proficiency bonus, whether or not the skill is also in \<open>proficient_skills\<close>.  (The
  skill has a governing ability, the character's score for it and the character's
  level are in range: otherwise the lookup, \<open>modifier\<close> or \<open>proficiency_bonus\<close>
  raises.)  The character of the test suite, proficient and expert in stealth with
  dexterity 16 at level 5, has the stealth modifier 3 + 2 * 3 = 9.
\<close>

theorem skill_modifier_expertise:
  assumes "lower skill \<in> expertise_skills c"
    and "SKILL_ABILITIES (lower skill) = Some ability"
    and "ability_modifier c ability = Inr m"
    and "proficiency_bonus (level c) = Inr pb"
  shows "skill_modifier c skill = Inr (m + 2 * pb)"
  using assms by (simp add: skill_modifier_def)

theorem skill_modifier_expertise_witness:
  "lower ''Stealth'' \<in> expertise_skills rogue \<and>
   lower ''Stealth'' \<in> proficient_skills rogue \<and>
   SKILL_ABILITIES (lower ''Stealth'') = Some ''dexterity'' \<and>
   ability_modifier rogue ''dexterity'' = Inr 3 \<and>
   proficiency_bonus (level rogue) = Inr 3 \<and>
   skill_modifier rogue ''Stealth'' = Inr 9"
proof -
  have e: "lower ''Stealth'' \<in> expertise_skills rogue"
    by (simp add: lower_Stealth rogue_def)
  have p: "lower ''Stealth'' \<in> proficient_skills rogue"
    by (simp add: lower_Stealth rogue_def)
  have k: "SKILL_ABILITIES (lower ''Stealth'') = Some ''dexterity''"
    by (simp add: lower_Stealth skill_stealth)
  show ?thesis
    using skill_modifier_expertise[OF e k rogue_dexterity rogue_proficiency]
      e p k rogue_dexterity rogue_proficiency
    by simp
qed

end
